theory Spec2Isabelle
  imports Main "HOL-Library.Log_Nat" "HOL-Library.Char_ord" "HOL-Library.List_Lexorder"
begin

section \<open>Data model of \<open>optimize_photos.py\<close>\<close>

text \<open>
  Exceptions are values. \<open>ZeroDivisionError\<close> is the one exception the script's own
  arithmetic raises (lines 166 and 190); \<open>Raised c\<close> stands for an exception of class
  \<open>c\<close> raised inside a library or system call (\<open>piexif\<close>, \<open>PIL\<close>, \<open>os\<close>,
  \<open>shutil\<close>, \<open>datetime\<close>, \<open>print\<close>).
\<close>

datatype error = ZeroDivisionError | Raised string

text \<open>A \<open>datetime.datetime\<close> value: the six calendar fields the script reads.\<close>

record datetime =
  year :: nat
  month :: nat
  day :: nat
  hour :: nat
  minute :: nat
  second :: nat

text \<open>
  The lines the script prints, one constructor per \<open>print\<close> statement of
  \<open>get_exif_datetime\<close>, \<open>optimize_image\<close> and \<open>process_photos\<close>, with the values
  that are interpolated. File names are byte strings, as the file system holds them.
\<close>

datatype event =
    WarnNoExif string                \<comment> \<open>line 48\<close>
  | WarnExifError string error       \<comment> \<open>line 53\<close>
  | ErrOptimizing string error       \<comment> \<open>line 101\<close>
  | ErrNoImages                      \<comment> \<open>line 124\<close>
  | Found nat                        \<comment> \<open>line 127\<close>
  | OutputDirectory                  \<comment> \<open>line 128\<close>
  | BackupDirectory                  \<comment> \<open>line 129\<close>
  | EventName string                 \<comment> \<open>line 130\<close>
  | MaxWidth int                     \<comment> \<open>line 131\<close>
  | Quality int                      \<comment> \<open>line 132\<close>
  | Processing string string         \<comment> \<open>line 161\<close>
  | Reduced nat nat                  \<comment> \<open>line 167\<close>
  | ErrProcessing string error       \<comment> \<open>line 179\<close>
  | RuleTop                          \<comment> \<open>line 183\<close>
  | SummaryProcessed nat             \<comment> \<open>line 184\<close>
  | SummaryFailed nat                \<comment> \<open>line 186\<close>
  | StorageSummary                   \<comment> \<open>line 187\<close>
  | OriginalTotal nat                \<comment> \<open>line 188\<close>
  | OptimizedTotal nat               \<comment> \<open>line 189\<close>
  | SpaceSaved nat nat               \<comment> \<open>line 190\<close>
  | OptimizedPhotos                  \<comment> \<open>line 191\<close>
  | OriginalBackups                  \<comment> \<open>line 192\<close>
  | RuleBottom                       \<comment> \<open>line 193\<close>

text \<open>
  Standard output. \<open>print\<close> can raise, for instance \<open>UnicodeEncodeError\<close> for a line
  that the stream's encoding cannot represent. The console is the stream's answer to
  each line: \<open>None\<close> when the line is written, \<open>Some e\<close> when \<open>print\<close> raises \<open>e\<close>
  and nothing is written. \<open>accepting\<close> is a stream that writes every line.
\<close>

type_synonym console = "event \<Rightarrow> error option"

definition accepting :: console where
  "accepting ev = None"

text \<open>
  A PIL image as far as the script looks at it: its size, its mode, and where its pixel
  data comes from. The pixel data is kept symbolic: each PIL call the script makes is a
  constructor.
\<close>

datatype pixels =
    Decoded                          \<comment> \<open>the pixel data \<open>Image.open\<close> reads from the file\<close>
  | Resized pixels "int \<times> int"       \<comment> \<open>\<open>img.resize(size, LANCZOS)\<close>\<close>
  | Converted pixels string          \<comment> \<open>\<open>img.convert(mode)\<close>\<close>
  | Solid "nat \<times> nat \<times> nat"          \<comment> \<open>\<open>Image.new('RGB', size, colour)\<close>\<close>
  | Pasted pixels pixels bool        \<comment> \<open>\<open>background.paste(img, mask)\<close>; True: alpha band as mask\<close>

record pil_image =
  isize :: "int \<times> int"
  mode :: string
  pixels :: pixels

type_synonym exif_ifd = "nat \<rightharpoonup> string"

text \<open>
  One entry of the input directory, with the answers the file system and the libraries
  give for it: \<open>exif_segment\<close> is the metadata block stored in the file (the payload of
  its Exif segment), if it has one; \<open>exif\<close> is \<open>piexif.load(path)["Exif"]\<close>, the tag
  values being byte strings; \<open>exif_dump\<close> is \<open>piexif.dump\<close> of the loaded dictionary;
  \<open>mtime\<close> is \<open>datetime.fromtimestamp(os.path.getmtime(path))\<close>; \<open>st_size\<close> is
  \<open>path.stat().st_size\<close>; \<open>opened\<close> is \<open>Image.open(path)\<close>; \<open>saved\<close> is the outcome
  of the PIL calls that produce the output, ending with \<open>img.save\<close> (an exception of
  any of them, or the byte size of the file written); \<open>copied\<close> is the outcome of
  \<open>shutil.copy2\<close>. Each call that can raise is an \<open>error + _\<close>. A call made twice
  for the same file gives the same answer both times.
\<close>

record image_file =
  name :: string
  is_file :: bool
  content :: string
  exif_segment :: "string option"
  exif :: "error + exif_ifd"
  exif_dump :: "error + string"
  mtime :: "error + datetime"
  st_size :: "error + nat"
  opened :: "error + pil_image"
  saved :: "error + nat"
  copied :: "error option"

section \<open>Formatting: \<open>strftime('%Y-%m-%d-%H%M')\<close> and \<open>str(counter)\<close>\<close>






section \<open>Filename Deriver (lines 145-154 of \<open>process_photos\<close>)\<close>










section \<open>Metadata Reader: \<open>get_exif_datetime\<close> (lines 29-56)\<close>

definition DateTimeOriginal :: nat where
  "DateTimeOriginal = 36867"

definition DateTimeDigitized :: nat where
  "DateTimeDigitized = 36868"

definition datetime_tags :: "nat list" where
  "datetime_tags = [DateTimeOriginal, DateTimeDigitized]"

subsection \<open>\<open>value.decode('utf-8')\<close>\<close>

text \<open>
  The strict UTF-8 decoder: the code points of a byte string, or \<open>None\<close> where Python
  raises \<open>UnicodeDecodeError\<close> (a stray or missing continuation byte, an overlong
  form, a surrogate, a code point above \<open>10FFFF\<close>).
\<close>

definition continuation :: "nat \<Rightarrow> bool" where
  "continuation b = (128 \<le> b \<and> b \<le> 191)"

fun utf8_decode :: "nat list \<Rightarrow> nat list option" where
  "utf8_decode [] = Some []"
| "utf8_decode [b] = (if b < 128 then Some [b] else None)"
| "utf8_decode [b, c1] =
     (if b < 128 then map_option ((#) b) (utf8_decode [c1])
      else if 194 \<le> b \<and> b \<le> 223 \<and> continuation c1
      then Some [(b - 192) * 64 + (c1 - 128)]
      else None)"
| "utf8_decode [b, c1, c2] =
     (if b < 128 then map_option ((#) b) (utf8_decode [c1, c2])
      else if 194 \<le> b \<and> b \<le> 223 \<and> continuation c1
      then map_option ((#) ((b - 192) * 64 + (c1 - 128))) (utf8_decode [c2])
      else if 224 \<le> b \<and> b \<le> 239 \<and> continuation c1 \<and> continuation c2
              \<and> (b = 224 \<longrightarrow> 160 \<le> c1) \<and> (b = 237 \<longrightarrow> c1 \<le> 159)
      then Some [(b - 224) * 4096 + (c1 - 128) * 64 + (c2 - 128)]
      else None)"
| "utf8_decode (b # c1 # c2 # c3 # bs) =
     (if b < 128 then map_option ((#) b) (utf8_decode (c1 # c2 # c3 # bs))
      else if 194 \<le> b \<and> b \<le> 223 \<and> continuation c1
      then map_option ((#) ((b - 192) * 64 + (c1 - 128))) (utf8_decode (c2 # c3 # bs))
      else if 224 \<le> b \<and> b \<le> 239 \<and> continuation c1 \<and> continuation c2
              \<and> (b = 224 \<longrightarrow> 160 \<le> c1) \<and> (b = 237 \<longrightarrow> c1 \<le> 159)
      then map_option ((#) ((b - 224) * 4096 + (c1 - 128) * 64 + (c2 - 128)))
             (utf8_decode (c3 # bs))
      else if 240 \<le> b \<and> b \<le> 244 \<and> continuation c1 \<and> continuation c2 \<and> continuation c3
              \<and> (b = 240 \<longrightarrow> 144 \<le> c1) \<and> (b = 244 \<longrightarrow> c1 \<le> 143)
      then map_option
             ((#) ((b - 240) * 262144 + (c1 - 128) * 4096 + (c2 - 128) * 64 + (c3 - 128)))
             (utf8_decode bs)
      else None)"

definition decode :: "string \<Rightarrow> nat list option" where
  "decode s = utf8_decode (map of_char s)"

subsection \<open>\<open>datetime.strptime(_, "%Y:%m:%d %H:%M:%S")\<close>\<close>

text \<open>
  \<open>strptime\<close> turns the format into the regular expression

  \<^verbatim>\<open>(?P<Y>\d\d\d\d):(?P<m>1[0-2]|0[1-9]|[1-9]):(?P<d>3[0-1]|[1-2]\d|0[1-9]|[1-9]| [1-9])\<close>
  \<^verbatim>\<open>\s+(?P<H>2[0-3]|[0-1]\d|\d):(?P<M>[0-5]\d|\d):(?P<S>6[0-1]|[0-5]\d|\d)\<close>

  matches it at the start of the string, refuses a match that leaves text behind, reads
  each group with \<open>int\<close> and builds the \<open>datetime\<close>, which checks the calendar. The
  expression is matched on code points: \<open>\d\<close> is any decimal digit of Unicode 14 (each
  run of ten starts at a code point of \<open>digit_zeros\<close>), \<open>\s\<close> any Unicode white space.
\<close>

definition digit_zeros :: "nat list" where
  "digit_zeros =
     [48, 1632, 1776, 1984, 2406, 2534, 2662, 2790, 2918, 3046, 3174, 3302, 3430, 3558,
      3664, 3792, 3872, 4160, 4240, 6112, 6160, 6470, 6608, 6784, 6800, 6992, 7088, 7232,
      7248, 42528, 43216, 43264, 43472, 43504, 43600, 44016, 65296, 66720, 68912, 69734,
      69872, 69942, 70096, 70384, 70736, 70864, 71248, 71360, 71472, 71904, 72016, 72784,
      73040, 73120, 92768, 92864, 93008, 120782, 120792, 120802, 120812, 120822, 123200,
      123632, 125264, 130032]"

definition digit_value :: "nat \<Rightarrow> nat option" where
  "digit_value c =
     map_option (\<lambda>z. c - z) (find (\<lambda>z. z \<le> c \<and> c < z + 10) digit_zeros)"

definition is_digit :: "nat \<Rightarrow> bool" where
  "is_digit c = (digit_value c \<noteq> None)"

definition is_space :: "nat \<Rightarrow> bool" where
  "is_space c =
     (c \<in> set [9, 10, 11, 12, 13, 28, 29, 30, 31, 32, 133, 160, 5760, 8192, 8193, 8194,
               8195, 8196, 8197, 8198, 8199, 8200, 8201, 8202, 8232, 8233, 8239, 8287,
               12288])"

text \<open>\<open>[a-b]\<close> for two ASCII characters, and a single character.\<close>

definition range :: "char \<Rightarrow> char \<Rightarrow> nat \<Rightarrow> bool" where
  "range a b c = (of_char a \<le> c \<and> c \<le> of_char b)"

definition lit :: "char \<Rightarrow> nat \<Rightarrow> bool" where
  "lit a c = (c = of_char a)"

text \<open>
  An alternative of a group is a sequence of character classes. A group tries its
  alternatives in order; each way to match gives the text of the group and the rest of
  the string. \<open>\s+\<close> is greedy: the longest run first.
\<close>

definition alternative :: "(nat \<Rightarrow> bool) list \<Rightarrow> nat list \<Rightarrow> (nat list \<times> nat list) list" where
  "alternative classes s =
     (if length classes \<le> length s \<and> list_all2 (\<lambda>p c. p c) classes (take (length classes) s)
      then [(take (length classes) s, drop (length classes) s)] else [])"

definition group :: "(nat \<Rightarrow> bool) list list \<Rightarrow> nat list \<Rightarrow> (nat list \<times> nat list) list" where
  "group alternatives s = concat (map (\<lambda>classes. alternative classes s) alternatives)"

definition colon :: "nat list \<Rightarrow> nat list list" where
  "colon s = map snd (alternative [lit CHR '':''] s)"

definition spaces :: "nat list \<Rightarrow> nat list list" where
  "spaces s = map (\<lambda>k. drop k s) (rev [1..<Suc (length (takeWhile is_space s))])"

definition group_Y :: "(nat \<Rightarrow> bool) list list" where
  "group_Y = [[is_digit, is_digit, is_digit, is_digit]]"

definition group_m :: "(nat \<Rightarrow> bool) list list" where
  "group_m = [[lit CHR ''1'', range CHR ''0'' CHR ''2''], [lit CHR ''0'', range CHR ''1'' CHR ''9''],
              [range CHR ''1'' CHR ''9'']]"

definition group_d :: "(nat \<Rightarrow> bool) list list" where
  "group_d = [[lit CHR ''3'', range CHR ''0'' CHR ''1''], [range CHR ''1'' CHR ''2'', is_digit],
              [lit CHR ''0'', range CHR ''1'' CHR ''9''], [range CHR ''1'' CHR ''9''],
              [lit CHR '' '', range CHR ''1'' CHR ''9'']]"

definition group_H :: "(nat \<Rightarrow> bool) list list" where
  "group_H = [[lit CHR ''2'', range CHR ''0'' CHR ''3''], [range CHR ''0'' CHR ''1'', is_digit],
              [is_digit]]"

definition group_M :: "(nat \<Rightarrow> bool) list list" where
  "group_M = [[range CHR ''0'' CHR ''5'', is_digit], [is_digit]]"

definition group_S :: "(nat \<Rightarrow> bool) list list" where
  "group_S = [[lit CHR ''6'', range CHR ''0'' CHR ''1''], [range CHR ''0'' CHR ''5'', is_digit],
              [is_digit]]"

text \<open>
  All the ways the expression matches at the start of \<open>s\<close>, in the order the
  backtracking matcher finds them: the texts of the six groups and the unmatched rest.
  \<open>re.match\<close> returns the first.
\<close>

definition format_regex :: "nat list \<Rightarrow> (nat list list \<times> nat list) list" where
  "format_regex s =
     List.bind (group group_Y s) (\<lambda>(tY, r1).
     List.bind (colon r1) (\<lambda>r2.
     List.bind (group group_m r2) (\<lambda>(tm, r3).
     List.bind (colon r3) (\<lambda>r4.
     List.bind (group group_d r4) (\<lambda>(td, r5).
     List.bind (spaces r5) (\<lambda>r6.
     List.bind (group group_H r6) (\<lambda>(tH, r7).
     List.bind (colon r7) (\<lambda>r8.
     List.bind (group group_M r8) (\<lambda>(tM, r9).
     List.bind (colon r9) (\<lambda>r10.
     List.bind (group group_S r10) (\<lambda>(tS, r11).
       [([tY, tm, td, tH, tM, tS], r11)])))))))))))"

text \<open>\<open>int\<close> of the text of a group: its digits; the space of a padded day is skipped.\<close>

definition int_of :: "nat list \<Rightarrow> nat" where
  "int_of t = foldl (\<lambda>acc c. case digit_value c of Some v \<Rightarrow> 10 * acc + v | None \<Rightarrow> acc) 0 t"

definition is_leap :: "nat \<Rightarrow> bool" where
  "is_leap y = (y mod 4 = 0 \<and> (y mod 100 \<noteq> 0 \<or> y mod 400 = 0))"

definition days_in_month :: "nat \<Rightarrow> nat \<Rightarrow> nat" where
  "days_in_month y m =
     (if m = 2 then (if is_leap y then 29 else 28)
      else if m \<in> {4, 6, 9, 11} then 30 else 31)"

text \<open>
  The parse of a tag value, \<open>decode\<close> and \<open>strptime\<close> together (lines 42 and 44). The
  expression already bounds month, day, hour and minute; the \<open>datetime\<close> constructor
  refuses the year 0, a day the month does not have, and the seconds 60 and 61 that the
  expression lets through. The functions below take the parser as a parameter \<open>parse\<close>,
  and the general theorems hold for every parser; this one is used where a concrete
  run is evaluated.
\<close>

definition strptime :: "string \<Rightarrow> error + datetime" where
  "strptime datetime_str =
     (case decode datetime_str of
        None \<Rightarrow> Inl (Raised ''UnicodeDecodeError'')
      | Some s \<Rightarrow>
          (case format_regex s of
             [] \<Rightarrow> Inl (Raised ''ValueError'')
           | (found, rest) # others \<Rightarrow>
               (if rest \<noteq> [] then Inl (Raised ''ValueError'')
                else
                  (let y = int_of (found ! 0); m = int_of (found ! 1); d = int_of (found ! 2);
                       hh = int_of (found ! 3); mm = int_of (found ! 4); ss = int_of (found ! 5)
                   in if 1 \<le> y \<and> d \<le> days_in_month y m \<and> ss < 60
                      then Inr \<lparr>year = y, month = m, day = d, hour = hh, minute = mm,
                                second = ss\<rparr>
                      else Inl (Raised ''ValueError'')))))"

text \<open>
  The \<open>for tag in datetime_tags\<close> loop of lines 40-45: the first tag that is present
  decides. Its value is parsed; a parse that raises leaves the loop with the exception
  (\<open>Inl\<close>), a parse that succeeds returns. \<open>Inr None\<close>: the loop ran to its end.
\<close>

fun scan_tags :: "(string \<Rightarrow> error + datetime) \<Rightarrow> exif_ifd \<Rightarrow> nat list \<Rightarrow> error + datetime option" where
  "scan_tags parse ifd [] = Inr None"
| "scan_tags parse ifd (tag # tags) =
     (case ifd tag of
        Some v \<Rightarrow> (case parse v of Inl e \<Rightarrow> Inl e | Inr dt \<Rightarrow> Inr (Some dt))
      | None \<Rightarrow> scan_tags parse ifd tags)"

text \<open>
  The body of the \<open>try\<close> (lines 32-50): its outcome and what it printed. \<open>piexif.load\<close>
  may raise; so may the parse inside the loop, the \<open>print\<close> of line 48 and the
  \<open>getmtime\<close> of line 49.
\<close>

definition exif_try ::
  "console \<Rightarrow> (string \<Rightarrow> error + datetime) \<Rightarrow> image_file \<Rightarrow> (error + datetime) \<times> event list" where
  "exif_try con parse f =
     (case exif f of
        Inl e \<Rightarrow> (Inl e, [])
      | Inr ifd \<Rightarrow>
          (case scan_tags parse ifd datetime_tags of
             Inl e \<Rightarrow> (Inl e, [])
           | Inr (Some dt) \<Rightarrow> (Inr dt, [])
           | Inr None \<Rightarrow>
               (case con (WarnNoExif (name f)) of
                  Some e \<Rightarrow> (Inl e, [])
                | None \<Rightarrow> (mtime f, [WarnNoExif (name f)]))))"

text \<open>
  The whole function: the \<open>except Exception\<close> handler of lines 52-56 prints a warning and
  reads the modification time again. Both are outside any \<open>try\<close>: an exception of the
  \<open>print\<close> of line 53 or of the \<open>getmtime\<close> of line 55 leaves the function.
\<close>

definition get_exif_datetime ::
  "console \<Rightarrow> (string \<Rightarrow> error + datetime) \<Rightarrow> image_file \<Rightarrow> (error + datetime) \<times> event list" where
  "get_exif_datetime con parse f =
     (case exif_try con parse f of
        (Inr dt, out) \<Rightarrow> (Inr dt, out)
      | (Inl e, out) \<Rightarrow>
          (case con (WarnExifError (name f) e) of
             Some e' \<Rightarrow> (Inl e', out)
           | None \<Rightarrow> (mtime f, out @ [WarnExifError (name f) e])))"

text \<open>
  The value of the first tag of \<open>datetime_tags\<close> that the Exif dictionary holds, and the
  embedded timestamp the reader obtains from it, if any.
\<close>

definition first_present :: "exif_ifd \<Rightarrow> string option" where
  "first_present ifd =
     (case ifd DateTimeOriginal of Some v \<Rightarrow> Some v | None \<Rightarrow> ifd DateTimeDigitized)"

definition embedded_datetime :: "(string \<Rightarrow> error + datetime) \<Rightarrow> image_file \<Rightarrow> datetime option" where
  "embedded_datetime parse f =
     (case exif f of
        Inl e \<Rightarrow> None
      | Inr ifd \<Rightarrow>
          (case first_present ifd of
             None \<Rightarrow> None
           | Some v \<Rightarrow> (case parse v of Inl e \<Rightarrow> None | Inr dt \<Rightarrow> Some dt)))"

section \<open>Python float arithmetic used by the resize step\<close>

text \<open>
  \<open>ratio = max_width / width\<close> and \<open>int(height * ratio)\<close> are computed in IEEE-754
  binary64. A finite double is a pair \<open>(m, e)\<close> standing for \<open>m * 2 ^ e\<close>. Every
  operation is the exact result rounded to 53 significant bits, to nearest, ties to even.
  The exponent range is not modelled: the values here are quotients and products of image
  dimensions, far inside it.
\<close>

type_synonym double = "int \<times> int"

text \<open>\<open>a / b\<close> rounded to the nearest integer, ties to even, for \<open>b > 0\<close>.\<close>

definition rne_div :: "int \<Rightarrow> int \<Rightarrow> int" where
  "rne_div a b =
     (let q = a div b; r = a mod b
      in if 2 * r < b then q else if b < 2 * r then q + 1 else if even q then q else q + 1)"

text \<open>
  The double nearest to \<open>a / b\<close>, for \<open>b > 0\<close>: the quotient is scaled by \<open>2 ^ t\<close>
  into \<open>[2 ^ 52, 2 ^ 53)\<close> and rounded there.
\<close>

definition round_ratio :: "int \<Rightarrow> int \<Rightarrow> double" where
  "round_ratio a b =
     (if a = 0 then (0, 0)
      else
        (let s = 53 + bitlen b - bitlen \<bar>a\<bar>;
             t = (if 2 ^ 53 * b * 2 ^ nat (- s) \<le> \<bar>a\<bar> * 2 ^ nat s then s - 1 else s)
         in (rne_div (a * 2 ^ nat t) (b * 2 ^ nat (- t)), - t)))"

text \<open>\<open>a / b\<close> on Python integers: true division, correctly rounded.\<close>

definition truediv :: "int \<Rightarrow> int \<Rightarrow> error + double" where
  "truediv a b =
     (if b = 0 then Inl ZeroDivisionError
      else Inr (if 0 < b then round_ratio a b else round_ratio (- a) (- b)))"

text \<open>The conversion of the integer operand of \<open>height * ratio\<close>.\<close>

definition float_of_int :: "int \<Rightarrow> double" where
  "float_of_int n = round_ratio n 1"

definition fmul :: "double \<Rightarrow> double \<Rightarrow> double" where
  "fmul x y =
     (let e = snd x + snd y
      in round_ratio (fst x * fst y * 2 ^ nat e) (2 ^ nat (- e)))"

text \<open>\<open>int(x)\<close>: truncation towards zero.\<close>

definition int_of_float :: "double \<Rightarrow> int" where
  "int_of_float x =
     (let m = fst x; e = snd x
      in if 0 \<le> e then m * 2 ^ nat e
         else if 0 \<le> m then m div 2 ^ nat (- e)
         else - ((- m) div 2 ^ nat (- e)))"

section \<open>Image Transcoder: \<open>optimize_image\<close> (lines 58-102)\<close>

text \<open>Lines 71-76: the new dimensions, and the resize.\<close>

definition new_size :: "int \<Rightarrow> int \<times> int \<Rightarrow> error + int \<times> int" where
  "new_size max_width sz =
     (let width = fst sz; height = snd sz
      in if width > max_width
         then (case truediv max_width width of
                 Inl e \<Rightarrow> Inl e
               | Inr ratio \<Rightarrow>
                   Inr (max_width, int_of_float (fmul (float_of_int height) ratio)))
         else Inr sz)"

definition resize_step :: "int \<Rightarrow> pil_image \<Rightarrow> error + pil_image" where
  "resize_step max_width img =
     (if fst (isize img) > max_width
      then (case new_size max_width (isize img) of
              Inl e \<Rightarrow> Inl e
            | Inr sz \<Rightarrow> Inr (img\<lparr>isize := sz, pixels := Resized (pixels img) sz\<rparr>))
      else Inr img)"

text \<open>Lines 79-86: the conversion to RGB.\<close>

definition convert :: "pil_image \<Rightarrow> string \<Rightarrow> pil_image" where
  "convert img m = img\<lparr>mode := m, pixels := Converted (pixels img) m\<rparr>"

definition normalize_mode :: "pil_image \<Rightarrow> pil_image" where
  "normalize_mode img =
     (if mode img \<in> {''RGBA'', ''LA'', ''P''}
      then
        (let background = \<lparr>isize = isize img, mode = ''RGB'', pixels = Solid (255, 255, 255)\<rparr>;
             img1 = (if mode img = ''P'' then convert img ''RGBA'' else img)
         in background\<lparr>pixels :=
              Pasted (pixels background) (pixels img1) (mode img1 = ''RGBA'')\<rparr>)
      else if mode img \<noteq> ''RGB'' then convert img ''RGB''
      else img)"

text \<open>
  Lines 65-68: \<open>piexif.dump(piexif.load(path))\<close>, or \<open>None\<close> when either call raises
  (the bare \<open>except\<close>).
\<close>

definition read_exif_bytes :: "image_file \<Rightarrow> string option" where
  "read_exif_bytes f =
     (case exif f of
        Inl e \<Rightarrow> None
      | Inr ifd \<Rightarrow> (case exif_dump f of Inl e \<Rightarrow> None | Inr b \<Rightarrow> Some b))"

text \<open>
  What \<open>img.save(output_path, 'JPEG', **save_kwargs)\<close> is called with. The encoder
  writes the bytes of the \<open>exif\<close> argument as the metadata block of the output, and no
  metadata block when the argument is not given.
\<close>

record jpeg_save =
  image :: pil_image
  quality :: int
  optimize :: bool
  progressive :: bool
  exif_kwarg :: "string option"

text \<open>
  The body of the \<open>try\<close> (lines 62-99). \<open>if exif_bytes:\<close> is false for \<open>None\<close> and for
  empty bytes. The result is the save call and the size of the file it wrote.
\<close>

definition optimize_try :: "int \<Rightarrow> int \<Rightarrow> image_file \<Rightarrow> error + jpeg_save \<times> nat" where
  "optimize_try max_width q f =
     (case opened f of
        Inl e \<Rightarrow> Inl e
      | Inr img \<Rightarrow>
          (let exif_bytes = read_exif_bytes f
           in case resize_step max_width img of
                Inl e \<Rightarrow> Inl e
              | Inr img1 \<Rightarrow>
                  (let img2 = normalize_mode img1;
                       kw = \<lparr>image = img2, quality = q, optimize = True, progressive = True,
                             exif_kwarg = (if exif_bytes \<noteq> None \<and> exif_bytes \<noteq> Some []
                                           then exif_bytes else None)\<rparr>
                   in case saved f of
                        Inl e \<Rightarrow> Inl e
                      | Inr n \<Rightarrow> Inr (kw, n))))"


section \<open>Batch Orchestrator: \<open>process_photos\<close> (lines 104-193)\<close>

text \<open>
  The variables of the loop, the two directories, and what has been printed. \<open>outdir\<close>
  lists the names in the output directory, \<open>backupdir\<close> maps a name in the backup
  directory to the bytes of that file.
\<close>

record run_state =
  processed :: nat
  failed :: nat
  total_original_size :: nat
  total_optimized_size :: nat
  outdir :: "string list"
  backupdir :: "string \<rightharpoonup> string"
  printed :: "event list"

text \<open>
  Consecutive \<open>print\<close> statements: the lines are written in order up to the first one
  that raises.
\<close>

fun print_all :: "console \<Rightarrow> event list \<Rightarrow> error option \<times> event list" where
  "print_all con [] = (None, [])"
| "print_all con (ev # evs) =
     (case con ev of
        Some e \<Rightarrow> (Some e, [])
      | None \<Rightarrow> (case print_all con evs of (r, out) \<Rightarrow> (r, ev # out)))"

definition prints :: "console \<Rightarrow> event list \<Rightarrow> run_state \<Rightarrow> error option \<times> run_state" where
  "prints con evs s =
     (case print_all con evs of (r, out) \<Rightarrow> (r, s\<lparr>printed := printed s @ out\<rparr>))"















text \<open>The real number a double stands for, and the powers of two with integer exponent.\<close>

definition dval :: "double \<Rightarrow> real" where
  "dval x = real_of_int (fst x) * 2 powr real_of_int (snd x)"

definition p2 :: "int \<Rightarrow> real" where
  "p2 e = 2 powr real_of_int e"

section \<open>Sample inputs\<close>

text \<open>
  Metadata blocks. \<open>piexif.dump\<close> always writes the big-endian (\<open>MM\<close>) form: the
  identifier \<open>Exif\<close> and two zero bytes, the TIFF header with the offset 8 of the first
  directory, the first directory, and after it the Exif directory with the values of
  its tags. \<open>exif_block tags\<close> is what it writes for a dictionary whose only entries
  are the given tags of the Exif directory, of type ASCII, in ascending order of their
  numbers and shorter than 255 bytes; \<open>exif_block []\<close> is what it writes for a
  dictionary without entries. \<open>exif_empty_le\<close> is a block without entries in
  little-endian (\<open>II\<close>) form, as a camera may write it.
\<close>

definition be16 :: "nat \<Rightarrow> string" where
  "be16 n = [char_of (n div 256), char_of n]"

definition be32 :: "nat \<Rightarrow> string" where
  "be32 n = [char_of (n div 16777216), char_of (n div 65536), char_of (n div 256), char_of n]"

definition exif_identifier :: string where
  "exif_identifier = ''Exif'' @ [CHR 0x00, CHR 0x00]"

fun ascii_entries :: "(nat \<times> string) list \<Rightarrow> nat \<Rightarrow> string \<times> string" where
  "ascii_entries [] offset = ([], [])"
| "ascii_entries ((tag, v) # tags) offset =
     (let new_value = v @ [CHR 0x00];
          over = (if length new_value > 4 then new_value else []);
          value_str = (if length new_value > 4 then be32 offset
                       else new_value @ replicate (4 - length new_value) (CHR 0x00));
          (entries, values) = ascii_entries tags (offset + length over)
      in (be16 tag @ be16 2 @ be32 (length new_value) @ value_str @ entries, over @ values))"

definition exif_block :: "(nat \<times> string) list \<Rightarrow> string" where
  "exif_block tags =
     exif_identifier @ ''MM'' @ be16 42 @ be32 8 @
     (if tags = [] then be16 0 @ be32 0
      else
        (let (entries, values) = ascii_entries tags (8 + 18 + (2 + 12 * length tags))
         in be16 1 @ (be16 34665 @ be16 4 @ be32 1 @ be32 26) @ be32 0 @
            be16 (length tags) @ entries @ values))"

definition exif_empty_le :: string where
  "exif_empty_le =
     exif_identifier @ ''II'' @ [CHR ''*'', CHR 0x00] @ [CHR 0x08, CHR 0x00, CHR 0x00, CHR 0x00] @
     [CHR 0x00, CHR 0x00] @ [CHR 0x00, CHR 0x00, CHR 0x00, CHR 0x00]"

text \<open>
  A JPEG file without metadata: \<open>piexif.load\<close> gives a dictionary without entries.
\<close>

definition plain_file :: image_file where
  "plain_file = \<lparr>name = ''IMG_0001.jpg'', is_file = True, content = ''jpegdata'',
     exif_segment = None, exif = Inr Map.empty, exif_dump = Inr (exif_block []),
     mtime = Inr \<lparr>year = 2025, month = 1, day = 2, hour = 3, minute = 4, second = 5\<rparr>,
     st_size = Inr 1000,
     opened = Inr \<lparr>isize = (4000, 3000), mode = ''RGB'', pixels = Decoded\<rparr>,
     saved = Inr 400, copied = None\<rparr>"

text \<open>A JPEG file with the two timestamp fields, the first of them malformed.\<close>

definition malformed_first_file :: image_file where
  "malformed_first_file = plain_file\<lparr>
     exif_segment := Some (exif_block [(DateTimeOriginal, ''not a date''),
       (DateTimeDigitized, ''2024:12:21 08:05:00'')]),
     exif := Inr [DateTimeOriginal \<mapsto> ''not a date'',
       DateTimeDigitized \<mapsto> ''2024:12:21 08:05:00''],
     exif_dump := Inr (exif_block [(DateTimeOriginal, ''not a date''),
       (DateTimeDigitized, ''2024:12:21 08:05:00'')])\<rparr>"

text \<open>A file that was removed after the directory was listed: every call on it raises.\<close>

definition vanished_file :: image_file where
  "vanished_file = plain_file\<lparr>exif := Inl (Raised ''FileNotFoundError''),
     exif_dump := Inl (Raised ''FileNotFoundError''),
     mtime := Inl (Raised ''FileNotFoundError''),
     st_size := Inl (Raised ''FileNotFoundError''),
     opened := Inl (Raised ''FileNotFoundError''),
     saved := Inl (Raised ''FileNotFoundError''),
     copied := Some (Raised ''FileNotFoundError'')\<rparr>"




text \<open>
  PNG files, in palette mode and in grayscale with alpha. \<open>piexif.load\<close> reads JPEG,
  TIFF and WebP only and raises for a PNG file.
\<close>

definition palette_file :: image_file where
  "palette_file = plain_file\<lparr>name := ''logo.png'',
     exif := Inl (Raised ''InvalidImageDataError''),
     exif_dump := Inl (Raised ''InvalidImageDataError''),
     opened := Inr \<lparr>isize = (800, 600), mode = ''P'', pixels = Decoded\<rparr>\<rparr>"

definition gray_alpha_file :: image_file where
  "gray_alpha_file = palette_file\<lparr>name := ''shadow.png'',
     opened := Inr \<lparr>isize = (800, 600), mode = ''LA'', pixels = Decoded\<rparr>\<rparr>"


text \<open>
  A JPEG file whose metadata block holds the original capture time \<open>stamp\<close>, in the form
  \<open>piexif.dump\<close> writes.
\<close>

definition stamped_file :: "string \<Rightarrow> string \<Rightarrow> image_file" where
  "stamped_file nm stamp = plain_file\<lparr>name := nm,
     exif_segment := Some (exif_block [(DateTimeOriginal, stamp)]),
     exif := Inr [DateTimeOriginal \<mapsto> stamp],
     exif_dump := Inr (exif_block [(DateTimeOriginal, stamp)]),
     opened := Inr \<lparr>isize = (1600, 1200), mode = ''RGB'', pixels = Decoded\<rparr>\<rparr>"

text \<open>A JPEG file whose metadata block has no entries and is in little-endian form.\<close>

definition intel_file :: image_file where
  "intel_file = plain_file\<lparr>name := ''IMG_0005.jpg'', exif_segment := Some exif_empty_le\<rparr>"

text \<open>
  A JPEG file whose name is not valid UTF-8. Python reads such a name with the
  \<open>surrogateescape\<close> error handler, and a strict UTF-8 stream cannot encode the result.
\<close>

definition unprintable_file :: image_file where
  "unprintable_file = plain_file\<lparr>name := ''IMG_'' @ [CHR 0xFF] @ ''.jpg''\<rparr>"

text \<open>
  A standard output with the strict UTF-8 encoding: \<open>print\<close> raises
  \<open>UnicodeEncodeError\<close> for a line that holds a name which is not valid UTF-8.
\<close>

fun interpolated :: "event \<Rightarrow> string list" where
  "interpolated (WarnNoExif nm) = [nm]"
| "interpolated (WarnExifError nm e) = [nm]"
| "interpolated (ErrOptimizing nm e) = [nm]"
| "interpolated (Processing nm new_filename) = [nm, new_filename]"
| "interpolated (ErrProcessing nm e) = [nm]"
| "interpolated (EventName event_name) = [event_name]"
| "interpolated ev = []"

definition utf8_stdout :: console where
  "utf8_stdout ev =
     (if list_all (\<lambda>nm. decode nm \<noteq> None) (interpolated ev) then None
      else Some (Raised ''UnicodeEncodeError''))"


section \<open>Properties of the Metadata Reader\<close>

lemma digit_value_ascii: "48 \<le> c \<Longrightarrow> c < 58 \<Longrightarrow> digit_value c = Some (c - 48)"
  by (simp add: digit_value_def digit_zeros_def)

lemma digit_value_below: "c < 48 \<Longrightarrow> digit_value c = None"
  by (simp add: digit_value_def digit_zeros_def)

lemma digit_value_above: "58 \<le> c \<Longrightarrow> c < 1632 \<Longrightarrow> digit_value c = None"
  by (simp add: digit_value_def digit_zeros_def)

lemmas strptime_eval =
  strptime_def decode_def format_regex_def group_def alternative_def colon_def spaces_def
  group_Y_def group_m_def group_d_def group_H_def group_M_def group_S_def is_digit_def
  range_def lit_def is_space_def int_of_def days_in_month_def is_leap_def
  digit_value_ascii digit_value_below digit_value_above

lemma strptime_sample: "strptime ''2024:12:21 08:05:00'' =
   Inr \<lparr>year = 2024, month = 12, day = 21, hour = 8, minute = 5, second = 0\<rparr>"
  by (simp add: strptime_eval)

lemma strptime_malformed: "strptime ''not a date'' = Inl (Raised ''ValueError'')"
  by (simp add: strptime_eval)

text \<open>
  Fields without padding, a day padded with a space and a run of white space are
  accepted; a second of 60, text left over, the year 0 and a day the month does not
  have are refused.
\<close>

lemma strptime_accepts:
  "strptime ''2024:1:2  3:4:5'' =
     Inr \<lparr>year = 2024, month = 1, day = 2, hour = 3, minute = 4, second = 5\<rparr>"
  "strptime ''2024:12: 5 08:05:00'' =
     Inr \<lparr>year = 2024, month = 12, day = 5, hour = 8, minute = 5, second = 0\<rparr>"
  "strptime ''2024:02:29 00:00:00'' =
     Inr \<lparr>year = 2024, month = 2, day = 29, hour = 0, minute = 0, second = 0\<rparr>"
  by (simp_all add: strptime_eval)

lemma strptime_refuses:
  "strptime ''2024:12:21 08:05:60'' = Inl (Raised ''ValueError'')"
  "strptime ''2024:12:21 08:05:75'' = Inl (Raised ''ValueError'')"
  "strptime ''2024:12:21 08:05:00 '' = Inl (Raised ''ValueError'')"
  "strptime ''2024:12:21 24:00:00'' = Inl (Raised ''ValueError'')"
  "strptime ''0000:01:01 00:00:00'' = Inl (Raised ''ValueError'')"
  "strptime ''2023:02:29 00:00:00'' = Inl (Raised ''ValueError'')"
  "strptime (''2024:12:21 08:05:0'' @ [CHR 0xFF]) = Inl (Raised ''UnicodeDecodeError'')"
  by (simp_all add: strptime_eval)



lemma decode_unprintable: "decode (''IMG_'' @ [CHR 0xFF] @ ''.jpg'') = None"
  by (simp add: decode_def)

lemma utf8_stdout_unprintable:
  "utf8_stdout (WarnNoExif (''IMG_'' @ [CHR 0xFF] @ ''.jpg'')) = Some (Raised ''UnicodeEncodeError'')"
  "utf8_stdout (WarnExifError (''IMG_'' @ [CHR 0xFF] @ ''.jpg'') e) =
     Some (Raised ''UnicodeEncodeError'')"
  "utf8_stdout (ErrProcessing (''IMG_'' @ [CHR 0xFF] @ ''.jpg'') e) =
     Some (Raised ''UnicodeEncodeError'')"
  using decode_unprintable by (simp_all add: utf8_stdout_def)

lemma exif_try_cases:
  "exif_try con parse f =
     (case exif f of
        Inl e \<Rightarrow> (Inl e, [])
      | Inr ifd \<Rightarrow>
          (case first_present ifd of
             Some v \<Rightarrow> (case parse v of Inr dt \<Rightarrow> (Inr dt, []) | Inl e \<Rightarrow> (Inl e, []))
           | None \<Rightarrow>
               (case con (WarnNoExif (name f)) of
                  Some e \<Rightarrow> (Inl e, [])
                | None \<Rightarrow> (mtime f, [WarnNoExif (name f)]))))"
  by (simp add: exif_try_def datetime_tags_def first_present_def
      split: sum.splits option.splits)

lemma exif_try_embedded:
  "embedded_datetime parse f = Some dt \<Longrightarrow> exif_try con parse f = (Inr dt, [])"
  unfolding exif_try_cases embedded_datetime_def
  by (cases "exif f") (auto split: option.splits sum.splits)

lemma exif_try_not_embedded:
  "embedded_datetime parse f = None \<Longrightarrow>
     (\<exists>e. exif_try con parse f = (Inl e, []))
     \<or> (con (WarnNoExif (name f)) = None
        \<and> exif_try con parse f = (mtime f, [WarnNoExif (name f)]))"
  unfolding exif_try_cases embedded_datetime_def
  by (cases "exif f") (auto split: option.splits sum.splits)

text \<open>
  C2, as amended. When the first present field parses, \<open>get_exif_datetime\<close> returns the
  embedded timestamp and prints nothing. Otherwise, when the warning of the handler
  (line 53) can be printed, a warning is printed and the outcome is that of reading the
  file's modification time: the modification time when it can be read, the exception of
  \<open>getmtime\<close> when it cannot; no parsing failure is propagated. Otherwise, when neither
  warning can be printed, the exception of \<open>print\<close> leaves the function.
\<close>

theorem get_exif_datetime_returns_when_printable:
  "(\<forall>dt. embedded_datetime parse f = Some dt \<longrightarrow>
        get_exif_datetime con parse f = (Inr dt, []))
   \<and> (embedded_datetime parse f = None \<and> (\<forall>e. con (WarnExifError (name f) e) = None) \<longrightarrow>
        fst (get_exif_datetime con parse f) = mtime f
        \<and> snd (get_exif_datetime con parse f) \<noteq> [])
   \<and> (embedded_datetime parse f = None \<and> con (WarnNoExif (name f)) \<noteq> None
        \<and> (\<forall>e. con (WarnExifError (name f) e) \<noteq> None) \<longrightarrow>
        (\<exists>e e'. con (WarnExifError (name f) e) = Some e'
           \<and> get_exif_datetime con parse f = (Inl e', [])))"
proof -
  have c1: "\<forall>dt. embedded_datetime parse f = Some dt \<longrightarrow>
      get_exif_datetime con parse f = (Inr dt, [])"
    by (simp add: get_exif_datetime_def exif_try_embedded)
  have c2: "fst (get_exif_datetime con parse f) = mtime f
      \<and> snd (get_exif_datetime con parse f) \<noteq> []"
    if a: "embedded_datetime parse f = None \<and> (\<forall>e. con (WarnExifError (name f) e) = None)"
  proof -
    from a consider e where "exif_try con parse f = (Inl e, [])"
      | "exif_try con parse f = (mtime f, [WarnNoExif (name f)])"
      using exif_try_not_embedded [of parse f con] by blast
    then show ?thesis
    proof cases
      case 1
      with a show ?thesis by (simp add: get_exif_datetime_def)
    next
      case 2
      with a show ?thesis by (cases "mtime f") (simp_all add: get_exif_datetime_def)
    qed
  qed
  have c3: "\<exists>e e'. con (WarnExifError (name f) e) = Some e'
      \<and> get_exif_datetime con parse f = (Inl e', [])"
    if a: "embedded_datetime parse f = None \<and> con (WarnNoExif (name f)) \<noteq> None
      \<and> (\<forall>e. con (WarnExifError (name f) e) \<noteq> None)"
  proof -
    from a have "embedded_datetime parse f = None" "con (WarnNoExif (name f)) \<noteq> None"
      by simp_all
    with exif_try_not_embedded [of parse f con]
    obtain e where t: "exif_try con parse f = (Inl e, [])"
      by auto
    from a obtain e' where e': "con (WarnExifError (name f) e) = Some e'" by blast
    from t e' have "get_exif_datetime con parse f = (Inl e', [])"
      by (simp add: get_exif_datetime_def)
    with e' show ?thesis by blast
  qed
  from c1 c2 c3 show ?thesis by blast
qed

theorem get_exif_datetime_returns_when_printable_witness:
  "embedded_datetime strptime (stamped_file ''a.jpg'' ''2024:12:21 08:05:00'') =
     Some \<lparr>year = 2024, month = 12, day = 21, hour = 8, minute = 5, second = 0\<rparr>
   \<and> get_exif_datetime utf8_stdout strptime (stamped_file ''a.jpg'' ''2024:12:21 08:05:00'') =
     (Inr \<lparr>year = 2024, month = 12, day = 21, hour = 8, minute = 5, second = 0\<rparr>, [])
   \<and> embedded_datetime strptime plain_file = None
   \<and> (\<forall>e. accepting (WarnExifError (name plain_file) e) = None)
   \<and> fst (get_exif_datetime accepting strptime plain_file) =
       Inr \<lparr>year = 2025, month = 1, day = 2, hour = 3, minute = 4, second = 5\<rparr>
   \<and> snd (get_exif_datetime accepting strptime plain_file) \<noteq> []
   \<and> embedded_datetime strptime unprintable_file = None
   \<and> utf8_stdout (WarnNoExif (name unprintable_file)) \<noteq> None
   \<and> (\<forall>e. utf8_stdout (WarnExifError (name unprintable_file) e) \<noteq> None)
   \<and> (\<exists>e'. get_exif_datetime utf8_stdout strptime unprintable_file = (Inl e', []))"
proof -
  let ?a = "stamped_file ''a.jpg'' ''2024:12:21 08:05:00''"
  have a: "embedded_datetime strptime ?a =
      Some \<lparr>year = 2024, month = 12, day = 21, hour = 8, minute = 5, second = 0\<rparr>"
    by (simp add: stamped_file_def plain_file_def embedded_datetime_def first_present_def
        strptime_sample)
  have p: "embedded_datetime strptime plain_file = None"
    by (simp add: plain_file_def embedded_datetime_def first_present_def)
  have pc: "\<forall>e. accepting (WarnExifError (name plain_file) e) = None"
    by (simp add: accepting_def)
  have pm: "mtime plain_file =
      Inr \<lparr>year = 2025, month = 1, day = 2, hour = 3, minute = 4, second = 5\<rparr>"
    by (simp add: plain_file_def)
  have u: "embedded_datetime strptime unprintable_file = None"
    by (simp add: unprintable_file_def plain_file_def embedded_datetime_def first_present_def)
  have un: "name unprintable_file = ''IMG_'' @ [CHR 0xFF] @ ''.jpg''"
    by (simp add: unprintable_file_def)
  have uc: "utf8_stdout (WarnNoExif (name unprintable_file)) \<noteq> None"
    "\<forall>e. utf8_stdout (WarnExifError (name unprintable_file) e) \<noteq> None"
    unfolding un by (simp_all only: utf8_stdout_unprintable, simp_all)
  from get_exif_datetime_returns_when_printable [of strptime ?a utf8_stdout] a
  have 1: "get_exif_datetime utf8_stdout strptime ?a =
      (Inr \<lparr>year = 2024, month = 12, day = 21, hour = 8, minute = 5, second = 0\<rparr>, [])"
    by blast
  from get_exif_datetime_returns_when_printable [of strptime plain_file accepting] p pc pm
  have 2: "fst (get_exif_datetime accepting strptime plain_file) =
       Inr \<lparr>year = 2025, month = 1, day = 2, hour = 3, minute = 4, second = 5\<rparr>
     \<and> snd (get_exif_datetime accepting strptime plain_file) \<noteq> []"
    by simp
  from get_exif_datetime_returns_when_printable [of strptime unprintable_file utf8_stdout] u uc
  have 3: "\<exists>e'. get_exif_datetime utf8_stdout strptime unprintable_file = (Inl e', [])"
    by blast
  from a p pc u uc 1 2 3 show ?thesis by blast
qed

text \<open>
  C2 as stated fails. For a file that was removed after the directory was listed, the
  handler's own \<open>getmtime\<close> raises and the exception leaves \<open>get_exif_datetime\<close>. For
  a file without embedded timestamp whose name a strict standard output cannot encode,
  the handler's \<open>print\<close> raises, although the modification time can be read.
\<close>

theorem get_exif_datetime_raises_counterexample:
  "get_exif_datetime accepting strptime vanished_file =
     (Inl (Raised ''FileNotFoundError''),
      [WarnExifError ''IMG_0001.jpg'' (Raised ''FileNotFoundError'')])
   \<and> mtime unprintable_file =
       Inr \<lparr>year = 2025, month = 1, day = 2, hour = 3, minute = 4, second = 5\<rparr>
   \<and> get_exif_datetime utf8_stdout strptime unprintable_file =
       (Inl (Raised ''UnicodeEncodeError''), [])"
  by (simp add: vanished_file_def unprintable_file_def plain_file_def get_exif_datetime_def
      exif_try_def datetime_tags_def accepting_def utf8_stdout_unprintable [simplified])

text \<open>
  C3, as amended. The two fields are looked up in the order original-capture-time,
  digitized-time, and the first one that is present decides: if it parses, its value is
  returned; if it does not, the modification time is read, with a warning, and the other
  field is not consulted. The modification time is also read when neither field is
  present or the metadata cannot be loaded. (Standard output accepts every line.)
\<close>

theorem get_exif_datetime_first_present_decides:
  "get_exif_datetime accepting parse f =
     (case exif f of
        Inl e \<Rightarrow> (mtime f, [WarnExifError (name f) e])
      | Inr ifd \<Rightarrow>
          (case first_present ifd of
             Some v \<Rightarrow>
               (case parse v of
                  Inr dt \<Rightarrow> (Inr dt, [])
                | Inl e \<Rightarrow> (mtime f, [WarnExifError (name f) e]))
           | None \<Rightarrow>
               (case mtime f of
                  Inr t \<Rightarrow> (Inr t, [WarnNoExif (name f)])
                | Inl e \<Rightarrow> (Inl e, [WarnNoExif (name f), WarnExifError (name f) e]))))"
  by (simp add: get_exif_datetime_def exif_try_def accepting_def datetime_tags_def
      first_present_def split: sum.splits option.splits)

theorem get_exif_datetime_first_present_decides_witness:
  "get_exif_datetime accepting strptime
     (plain_file\<lparr>exif := Inr [DateTimeDigitized \<mapsto> ''2024:12:21 08:05:00'']\<rparr>) =
       (Inr \<lparr>year = 2024, month = 12, day = 21, hour = 8, minute = 5, second = 0\<rparr>, [])"
  using get_exif_datetime_first_present_decides
    [of strptime "plain_file\<lparr>exif := Inr [DateTimeDigitized \<mapsto> ''2024:12:21 08:05:00'']\<rparr>"]
  by (simp add: strptime_sample plain_file_def first_present_def
      DateTimeOriginal_def DateTimeDigitized_def)

text \<open>
  C3 as stated fails: the first field is present but malformed, the second field parses,
  and the result is the modification time, not the second field's value.
\<close>

theorem malformed_first_field_counterexample:
  "exif malformed_first_file = Inr [DateTimeOriginal \<mapsto> ''not a date'',
       DateTimeDigitized \<mapsto> ''2024:12:21 08:05:00'']
   \<and> strptime ''not a date'' = Inl (Raised ''ValueError'')
   \<and> strptime ''2024:12:21 08:05:00'' =
       Inr \<lparr>year = 2024, month = 12, day = 21, hour = 8, minute = 5, second = 0\<rparr>
   \<and> get_exif_datetime accepting strptime malformed_first_file =
       (Inr \<lparr>year = 2025, month = 1, day = 2, hour = 3, minute = 4, second = 5\<rparr>,
        [WarnExifError ''IMG_0001.jpg'' (Raised ''ValueError'')])"
  by (simp add: strptime_sample strptime_malformed malformed_first_file_def plain_file_def
      get_exif_datetime_def exif_try_def accepting_def datetime_tags_def DateTimeOriginal_def
      DateTimeDigitized_def)

section \<open>Properties of the Batch Orchestrator\<close>

lemma new_size_plain: "new_size 1920 (4000, 3000) = Inr (1920, 1440)"
  by code_simp


lemma exif_block_empty: "exif_block [] \<noteq> []"
  by (simp add: exif_block_def exif_identifier_def)

lemma optimize_try_plain:
  "optimize_try 1920 82 (plain_file\<lparr>name := nm, copied := cp\<rparr>) =
     Inr (\<lparr>image = \<lparr>isize = (1920, 1440), mode = ''RGB'',
                     pixels = Resized Decoded (1920, 1440)\<rparr>,
           quality = 82, optimize = True, progressive = True,
           exif_kwarg = Some (exif_block [])\<rparr>, 400)"
  by (simp add: optimize_try_def plain_file_def read_exif_bytes_def resize_step_def
      new_size_plain normalize_mode_def exif_block_empty)

















section \<open>Properties of the colour normalisation\<close>

lemma resize_step_mode: "resize_step mw img = Inr img1 \<Longrightarrow> mode img1 = mode img"
  by (auto simp add: resize_step_def split: if_splits sum.splits)

lemma resize_step_pixels:
  "resize_step mw img = Inr img1 \<Longrightarrow>
     pixels img1 = (if fst (isize img) > mw then Resized (pixels img) (isize img1) else pixels img)"
  by (auto simp add: resize_step_def split: if_splits sum.splits)

lemma normalize_mode_rgb: "mode (normalize_mode img) = ''RGB''"
  by (simp add: normalize_mode_def convert_def Let_def)

lemma normalize_mode_pixels:
  "pixels (normalize_mode img) =
     (if mode img = ''RGBA'' then Pasted (Solid (255, 255, 255)) (pixels img) True
      else if mode img = ''P''
        then Pasted (Solid (255, 255, 255)) (Converted (pixels img) ''RGBA'') True
      else if mode img = ''LA'' then Pasted (Solid (255, 255, 255)) (pixels img) False
      else if mode img = ''RGB'' then pixels img
      else Converted (pixels img) ''RGB'')"
  by (simp add: normalize_mode_def convert_def Let_def)

text \<open>
  C9. The image handed to the JPEG encoder is in mode RGB, and its pixel data is the
  (resized) pixel data of the input, treated by its mode: an RGBA image is pasted on a
  white background with its alpha band as mask, a P image likewise after conversion to
  RGBA, and an image in any other mode but RGB is converted to RGB. An LA image, which
  line 79 lists with the two others, is pasted on the white background without a mask
  (line 83 takes the alpha band for RGBA only): its transparency is ignored, not
  flattened onto white.
\<close>

theorem saved_image_pixels:
  assumes "opened f = Inr img" and "optimize_try mw q f = Inr (kw, n)"
  shows "\<exists>img1. resize_step mw img = Inr img1
       \<and> pixels img1 =
           (if fst (isize img) > mw then Resized (pixels img) (isize img1) else pixels img)
       \<and> mode (image kw) = ''RGB''
       \<and> pixels (image kw) =
           (if mode img = ''RGBA'' then Pasted (Solid (255, 255, 255)) (pixels img1) True
            else if mode img = ''P''
              then Pasted (Solid (255, 255, 255)) (Converted (pixels img1) ''RGBA'') True
            else if mode img = ''LA'' then Pasted (Solid (255, 255, 255)) (pixels img1) False
            else if mode img = ''RGB'' then pixels img1
            else Converted (pixels img1) ''RGB'')"
proof -
  from assms obtain img1 where r: "resize_step mw img = Inr img1"
    and k: "image kw = normalize_mode img1"
    by (auto simp add: optimize_try_def Let_def split: sum.splits)
  from r have m: "mode img1 = mode img" by (rule resize_step_mode)
  from r have p: "pixels img1 =
      (if fst (isize img) > mw then Resized (pixels img) (isize img1) else pixels img)"
    by (rule resize_step_pixels)
  from k have "mode (image kw) = ''RGB''" by (simp add: normalize_mode_rgb)
  moreover from k m have "pixels (image kw) =
           (if mode img = ''RGBA'' then Pasted (Solid (255, 255, 255)) (pixels img1) True
            else if mode img = ''P''
              then Pasted (Solid (255, 255, 255)) (Converted (pixels img1) ''RGBA'') True
            else if mode img = ''LA'' then Pasted (Solid (255, 255, 255)) (pixels img1) False
            else if mode img = ''RGB'' then pixels img1
            else Converted (pixels img1) ''RGB'')"
    by (simp only: normalize_mode_pixels)
  ultimately show ?thesis using r p by blast
qed

lemma optimize_try_palette:
  "optimize_try 1920 82 palette_file =
     Inr (\<lparr>image = \<lparr>isize = (800, 600), mode = ''RGB'',
                     pixels = Pasted (Solid (255, 255, 255)) (Converted Decoded ''RGBA'') True\<rparr>,
           quality = 82, optimize = True, progressive = True, exif_kwarg = None\<rparr>, 400)"
  by (simp add: optimize_try_def palette_file_def plain_file_def read_exif_bytes_def
      resize_step_def normalize_mode_def convert_def)

theorem saved_image_pixels_witness:
  "opened palette_file = Inr \<lparr>isize = (800, 600), mode = ''P'', pixels = Decoded\<rparr>
   \<and> optimize_try 1920 82 palette_file =
     Inr (\<lparr>image = \<lparr>isize = (800, 600), mode = ''RGB'',
                     pixels = Pasted (Solid (255, 255, 255)) (Converted Decoded ''RGBA'') True\<rparr>,
           quality = 82, optimize = True, progressive = True, exif_kwarg = None\<rparr>, 400)
   \<and> (\<exists>img1. resize_step 1920 \<lparr>isize = (800, 600), mode = ''P'', pixels = Decoded\<rparr> = Inr img1
        \<and> pixels img1 = Decoded
        \<and> Pasted (Solid (255, 255, 255)) (Converted Decoded ''RGBA'') True =
            Pasted (Solid (255, 255, 255)) (Converted (pixels img1) ''RGBA'') True)"
proof -
  have o: "opened palette_file = Inr \<lparr>isize = (800, 600), mode = ''P'', pixels = Decoded\<rparr>"
    by (simp add: palette_file_def)
  note t = optimize_try_palette
  from saved_image_pixels [OF o t] o t show ?thesis by simp
qed

text \<open>
  The failing input of C9: a PNG image in mode LA. What reaches the encoder is the
  white background with the image pasted over it without a mask.
\<close>

theorem gray_alpha_counterexample:
  "opened gray_alpha_file = Inr \<lparr>isize = (800, 600), mode = ''LA'', pixels = Decoded\<rparr>
   \<and> optimize_try 1920 82 gray_alpha_file =
     Inr (\<lparr>image = \<lparr>isize = (800, 600), mode = ''RGB'',
                     pixels = Pasted (Solid (255, 255, 255)) Decoded False\<rparr>,
           quality = 82, optimize = True, progressive = True, exif_kwarg = None\<rparr>, 400)"
  by (simp add: optimize_try_def gray_alpha_file_def palette_file_def plain_file_def
      read_exif_bytes_def resize_step_def normalize_mode_def convert_def)

section \<open>Properties of the metadata carry-over\<close>

lemma optimize_try_exif_kwarg:
  "optimize_try mw q f = Inr (kw, n) \<Longrightarrow>
     exif_kwarg kw =
       (case read_exif_bytes f of None \<Rightarrow> None | Some b \<Rightarrow> if b = [] then None else Some b)"
  by (auto simp add: optimize_try_def Let_def split: sum.splits option.splits)

lemma optimize_try_without_metadata:
  "read_exif_bytes f = None \<Longrightarrow> opened f = Inr img \<Longrightarrow> resize_step mw img = Inr img1 \<Longrightarrow>
     saved f = Inr n \<Longrightarrow>
     optimize_try mw q f =
       Inr (\<lparr>image = normalize_mode img1, quality = q, optimize = True, progressive = True,
             exif_kwarg = None\<rparr>, n)"
  by (simp add: optimize_try_def)

text \<open>
  C7, as amended. When the metadata was extracted (\<open>piexif.load\<close> and \<open>piexif.dump\<close>
  returned, with a result that is not empty), the metadata block given to the encoder
  for the output is exactly \<open>piexif.dump(piexif.load(path))\<close>, the parsed metadata
  written out again; it is byte-identical to the block stored in the input exactly when
  that block already is what \<open>piexif.dump\<close> writes. When the extraction raises, the
  transcoding goes on as it would otherwise and the output is written without metadata.
\<close>

theorem metadata_carried_over:
  "(\<forall>kw n ifd b. optimize_try mw q f = Inr (kw, n) \<and> exif f = Inr ifd
        \<and> exif_dump f = Inr b \<and> b \<noteq> [] \<longrightarrow>
      exif_kwarg kw = Some b
      \<and> (exif_kwarg kw = exif_segment f \<longleftrightarrow> exif_segment f = Some b))
   \<and> (\<forall>e img img1 n. (exif f = Inl e \<or> exif_dump f = Inl e) \<and> opened f = Inr img
        \<and> resize_step mw img = Inr img1 \<and> saved f = Inr n \<longrightarrow>
      optimize_try mw q f =
        Inr (\<lparr>image = normalize_mode img1, quality = q, optimize = True, progressive = True,
              exif_kwarg = None\<rparr>, n))"
proof -
  have 1: "exif_kwarg kw = Some b \<and> (exif_kwarg kw = exif_segment f \<longleftrightarrow> exif_segment f = Some b)"
    if a: "optimize_try mw q f = Inr (kw, n) \<and> exif f = Inr ifd \<and> exif_dump f = Inr b \<and> b \<noteq> []"
    for kw n ifd b
  proof -
    from a have "read_exif_bytes f = Some b" by (simp add: read_exif_bytes_def)
    with a optimize_try_exif_kwarg [of mw q f kw n] have "exif_kwarg kw = Some b" by simp
    then show ?thesis by auto
  qed
  have 2: "optimize_try mw q f =
        Inr (\<lparr>image = normalize_mode img1, quality = q, optimize = True, progressive = True,
              exif_kwarg = None\<rparr>, n)"
    if a: "(exif f = Inl e \<or> exif_dump f = Inl e) \<and> opened f = Inr img
        \<and> resize_step mw img = Inr img1 \<and> saved f = Inr n"
    for e img img1 n
  proof -
    from a have "read_exif_bytes f = None"
      by (auto simp add: read_exif_bytes_def split: sum.splits)
    with a show ?thesis by (simp add: optimize_try_without_metadata)
  qed
  from 1 2 show ?thesis by blast
qed

lemma optimize_try_stamped:
  "optimize_try 1920 82 (stamped_file nm stamp) =
     Inr (\<lparr>image = \<lparr>isize = (1600, 1200), mode = ''RGB'', pixels = Decoded\<rparr>,
           quality = 82, optimize = True, progressive = True,
           exif_kwarg = Some (exif_block [(DateTimeOriginal, stamp)])\<rparr>, 400)"
  by (simp add: optimize_try_def stamped_file_def plain_file_def read_exif_bytes_def
      resize_step_def normalize_mode_def exif_block_def exif_identifier_def)

theorem metadata_carried_over_witness:
  "optimize_try 1920 82 (stamped_file ''a.jpg'' ''2024:12:21 08:05:00'') =
     Inr (\<lparr>image = \<lparr>isize = (1600, 1200), mode = ''RGB'', pixels = Decoded\<rparr>,
           quality = 82, optimize = True, progressive = True,
           exif_kwarg = Some (exif_block [(DateTimeOriginal, ''2024:12:21 08:05:00'')])\<rparr>, 400)
   \<and> exif (stamped_file ''a.jpg'' ''2024:12:21 08:05:00'') =
       Inr [DateTimeOriginal \<mapsto> ''2024:12:21 08:05:00'']
   \<and> exif_dump (stamped_file ''a.jpg'' ''2024:12:21 08:05:00'') =
       Inr (exif_block [(DateTimeOriginal, ''2024:12:21 08:05:00'')])
   \<and> exif_block [(DateTimeOriginal, ''2024:12:21 08:05:00'')] \<noteq> []
   \<and> exif_segment (stamped_file ''a.jpg'' ''2024:12:21 08:05:00'') =
       Some (exif_block [(DateTimeOriginal, ''2024:12:21 08:05:00'')])
   \<and> exif palette_file = Inl (Raised ''InvalidImageDataError'')
   \<and> opened palette_file = Inr \<lparr>isize = (800, 600), mode = ''P'', pixels = Decoded\<rparr>
   \<and> resize_step 1920 \<lparr>isize = (800, 600), mode = ''P'', pixels = Decoded\<rparr> =
       Inr \<lparr>isize = (800, 600), mode = ''P'', pixels = Decoded\<rparr>
   \<and> saved palette_file = Inr 400
   \<and> optimize_try 1920 82 palette_file =
       Inr (\<lparr>image = normalize_mode \<lparr>isize = (800, 600), mode = ''P'', pixels = Decoded\<rparr>,
             quality = 82, optimize = True, progressive = True, exif_kwarg = None\<rparr>, 400)"
proof -
  let ?a = "stamped_file ''a.jpg'' ''2024:12:21 08:05:00''"
  let ?b = "exif_block [(DateTimeOriginal, ''2024:12:21 08:05:00'')]"
  let ?p = "\<lparr>isize = (800, 600), mode = ''P'', pixels = Decoded\<rparr>"
  note t = optimize_try_stamped [of "''a.jpg''" "''2024:12:21 08:05:00''"]
  have e: "exif ?a = Inr [DateTimeOriginal \<mapsto> ''2024:12:21 08:05:00'']"
    "exif_dump ?a = Inr ?b" "exif_segment ?a = Some ?b"
    by (simp_all add: stamped_file_def)
  have n: "?b \<noteq> []" by (simp add: exif_block_def exif_identifier_def)
  have p: "exif palette_file = Inl (Raised ''InvalidImageDataError'')"
    "opened palette_file = Inr ?p" "saved palette_file = Inr 400"
    by (simp_all add: palette_file_def plain_file_def)
  have r: "resize_step 1920 ?p = Inr ?p" by (simp add: resize_step_def)
  from metadata_carried_over [of 1920 82 ?a] t e n
  have 1: "exif_segment ?a = Some ?b" by blast
  from metadata_carried_over [of 1920 82 palette_file] p r
  have 2: "optimize_try 1920 82 palette_file =
       Inr (\<lparr>image = normalize_mode ?p, quality = 82, optimize = True, progressive = True,
             exif_kwarg = None\<rparr>, 400)"
    by blast
  from t e n p r 1 2 show ?thesis by blast
qed

text \<open>
  C7 as stated fails. The block of \<open>intel_file\<close> is in little-endian form; the
  extraction succeeds, and the output is given the big-endian block that \<open>piexif.dump\<close>
  writes, which differs from the input's block. \<open>plain_file\<close> has no metadata block;
  the extraction succeeds too, and the output is given a block without entries.
\<close>

theorem metadata_rewritten_counterexample:
  "exif_segment intel_file = Some exif_empty_le
   \<and> exif intel_file = Inr Map.empty
   \<and> exif_dump intel_file = Inr (exif_block [])
   \<and> optimize_try 1920 82 intel_file =
     Inr (\<lparr>image = \<lparr>isize = (1920, 1440), mode = ''RGB'',
                     pixels = Resized Decoded (1920, 1440)\<rparr>,
           quality = 82, optimize = True, progressive = True,
           exif_kwarg = Some (exif_block [])\<rparr>, 400)
   \<and> exif_block [] \<noteq> exif_empty_le
   \<and> exif_segment plain_file = None
   \<and> optimize_try 1920 82 plain_file =
     Inr (\<lparr>image = \<lparr>isize = (1920, 1440), mode = ''RGB'',
                     pixels = Resized Decoded (1920, 1440)\<rparr>,
           quality = 82, optimize = True, progressive = True,
           exif_kwarg = Some (exif_block [])\<rparr>, 400)"
proof -
  have i: "optimize_try 1920 82 intel_file =
     Inr (\<lparr>image = \<lparr>isize = (1920, 1440), mode = ''RGB'',
                     pixels = Resized Decoded (1920, 1440)\<rparr>,
           quality = 82, optimize = True, progressive = True,
           exif_kwarg = Some (exif_block [])\<rparr>, 400)"
    by (simp add: optimize_try_def intel_file_def plain_file_def read_exif_bytes_def
        resize_step_def new_size_plain normalize_mode_def exif_block_empty)
  have p: "optimize_try 1920 82 plain_file =
     Inr (\<lparr>image = \<lparr>isize = (1920, 1440), mode = ''RGB'',
                     pixels = Resized Decoded (1920, 1440)\<rparr>,
           quality = 82, optimize = True, progressive = True,
           exif_kwarg = Some (exif_block [])\<rparr>, 400)"
    using optimize_try_plain [where nm = "name plain_file" and cp = "copied plain_file"] by simp
  have d: "exif_block [] \<noteq> exif_empty_le"
    by (simp add: exif_block_def exif_empty_le_def exif_identifier_def be16_def be32_def)
  have s: "exif_segment intel_file = Some exif_empty_le" "exif intel_file = Inr Map.empty"
    "exif_dump intel_file = Inr (exif_block [])" "exif_segment plain_file = None"
    by (simp_all add: intel_file_def plain_file_def)
  from i p d s show ?thesis by simp
qed

section \<open>Properties of the summary\<close>









section \<open>Properties of the Filename Deriver\<close>









lemma prints_outdir: "outdir (snd (prints con evs s)) = outdir s"
  by (simp add: prints_def split: prod.splits)










section \<open>Properties of the resize step\<close>

lemma rne_div_error:
  assumes "0 < b"
  shows "\<bar>real_of_int (rne_div a b) - real_of_int a / real_of_int b\<bar> \<le> 1 / 2"
proof -
  let ?q = "a div b" and ?r = "a mod b"
  have a: "a = b * ?q + ?r" by simp
  have r: "0 \<le> ?r" "?r < b" using assms by simp_all
  have b: "0 < real_of_int b" using assms by simp
  have "real_of_int a = real_of_int b * real_of_int ?q + real_of_int ?r"
    by (metis a of_int_add of_int_mult)
  then have q: "real_of_int a / real_of_int b = real_of_int ?q + real_of_int ?r / real_of_int b"
    using b by (simp add: field_simps)
  have r1: "0 \<le> real_of_int ?r / real_of_int b" using r b by simp
  have r2: "real_of_int ?r / real_of_int b < 1" using r b by simp
  consider "2 * ?r < b" | "b < 2 * ?r" | "2 * ?r = b" by linarith
  then show ?thesis
  proof cases
    case 1
    then have "real_of_int ?r / real_of_int b < 1 / 2" using b by (simp add: field_simps)
    with 1 q r1 show ?thesis by (simp add: rne_div_def Let_def)
  next
    case 2
    then have "1 / 2 < real_of_int ?r / real_of_int b" using b by (simp add: field_simps)
    with 2 q r2 show ?thesis by (simp add: rne_div_def Let_def)
  next
    case 3
    then have "real_of_int ?r / real_of_int b = 1 / 2" using b by (simp add: field_simps)
    with 3 q show ?thesis by (simp add: rne_div_def Let_def)
  qed
qed

lemma rne_div_nonneg: "0 \<le> a \<Longrightarrow> 0 < b \<Longrightarrow> 0 \<le> rne_div a b"
  by (simp add: rne_div_def Let_def pos_imp_zdiv_nonneg_iff)


lemma p2_pos: "0 < p2 e"
  by (simp add: p2_def)

lemma p2_add: "p2 (a + b) = p2 a * p2 b"
  by (simp add: p2_def powr_add)

lemma p2_nat: "0 \<le> e \<Longrightarrow> p2 e = 2 ^ nat e"
  by (simp add: p2_def powr_realpow [symmetric])

lemma p2_neg: "e \<le> 0 \<Longrightarrow> p2 e = 1 / 2 ^ nat (- e)"
proof -
  assume "e \<le> 0"
  then have "p2 (- e) = 2 ^ nat (- e)" by (simp add: p2_nat)
  moreover have "p2 e * p2 (- e) = 1"
    by (simp add: p2_add [symmetric]) (simp add: p2_def)
  ultimately show ?thesis using p2_pos [of "- e"] by (simp add: field_simps)
qed

lemma p2_scale:
  "real_of_int (2 ^ nat t) / real_of_int (2 ^ nat (- t)) = p2 t"
proof (cases "0 \<le> t")
  case True
  then show ?thesis by (simp add: p2_nat)
next
  case False
  then show ?thesis by (simp add: p2_neg)
qed

lemma bitlen_p2:
  assumes "0 < x"
  shows "p2 (bitlen x - 1) \<le> real_of_int x" and "real_of_int x < p2 (bitlen x)"
proof -
  from bitlen_bounds [OF assms]
  have l: "2 ^ nat (bitlen x - 1) \<le> x" and u: "x < 2 ^ nat (bitlen x)" by simp_all
  from assms have "bitlen x \<noteq> 0" by (simp add: bitlen_eq_zero_iff)
  with bitlen_nonneg [of x] have b1: "1 \<le> bitlen x" by linarith
  from l have "real_of_int (2 ^ nat (bitlen x - 1)) \<le> real_of_int x"
    by (simp only: of_int_le_iff)
  with b1 show "p2 (bitlen x - 1) \<le> real_of_int x" by (simp add: p2_nat)
  from u have "real_of_int x < real_of_int (2 ^ nat (bitlen x))"
    by (simp only: of_int_less_iff)
  with b1 show "real_of_int x < p2 (bitlen x)" by (simp add: p2_nat)
qed


lemma round_ratio_scaled:
  assumes "a \<noteq> 0" and "0 < b"
  shows "\<exists>t. round_ratio a b = (rne_div (a * 2 ^ nat t) (b * 2 ^ nat (- t)), - t)
           \<and> 2 ^ 52 \<le> \<bar>real_of_int a\<bar> / real_of_int b * p2 t"
proof -
  define s where "s = 53 + bitlen b - bitlen \<bar>a\<bar>"
  define c where "c \<longleftrightarrow> 2 ^ 53 * b * 2 ^ nat (- s) \<le> \<bar>a\<bar> * 2 ^ nat s"
  define t where "t = (if c then s - 1 else s)"
  have rr: "round_ratio a b = (rne_div (a * 2 ^ nat t) (b * 2 ^ nat (- t)), - t)"
    using assms by (simp add: round_ratio_def Let_def s_def c_def t_def)
  have bp: "0 < real_of_int b" using assms by simp
  have ap: "0 < \<bar>a\<bar>" using assms by simp
  have key: "2 ^ 52 \<le> \<bar>real_of_int a\<bar> / real_of_int b * p2 t"
  proof (cases c)
    case True
    then have "real_of_int (2 ^ 53 * b * 2 ^ nat (- s)) \<le> real_of_int (\<bar>a\<bar> * 2 ^ nat s)"
      unfolding c_def by (simp only: of_int_le_iff)
    then have "2 ^ 53 * real_of_int b * real_of_int (2 ^ nat (- s))
        \<le> \<bar>real_of_int a\<bar> * real_of_int (2 ^ nat s)"
      by simp
    moreover have "real_of_int (2 ^ nat s) = p2 s * real_of_int (2 ^ nat (- s))"
      using p2_scale [of s] by (simp add: field_simps)
    ultimately have "2 ^ 53 * real_of_int b * real_of_int (2 ^ nat (- s))
        \<le> \<bar>real_of_int a\<bar> * p2 s * real_of_int (2 ^ nat (- s))"
      by simp
    then have "2 ^ 53 * real_of_int b \<le> \<bar>real_of_int a\<bar> * p2 s"
      by simp
    then have h: "2 ^ 53 \<le> \<bar>real_of_int a\<bar> / real_of_int b * p2 s"
      using bp by (simp add: field_simps)
    define x where "x = \<bar>real_of_int a\<bar> / real_of_int b * p2 (s - 1)"
    have "p2 s = p2 (s - 1) * 2"
      using p2_add [of "s - 1" 1] by (simp add: p2_def)
    then have "\<bar>real_of_int a\<bar> / real_of_int b * p2 s = x * 2"
      by (simp add: x_def)
    with h have "2 ^ 52 \<le> x" by simp
    with True show ?thesis by (simp add: t_def x_def)
  next
    case False
    have l: "p2 (bitlen \<bar>a\<bar> - 1) \<le> \<bar>real_of_int a\<bar>"
      using bitlen_p2 (1) [OF ap] by simp
    have u: "real_of_int b < p2 (bitlen b)"
      using bitlen_p2 (2) [OF assms(2)] .
    have "p2 52 * p2 (bitlen b) = p2 (bitlen \<bar>a\<bar> - 1) * p2 s"
      by (simp add: p2_add [symmetric] s_def)
    also have "\<dots> \<le> \<bar>real_of_int a\<bar> * p2 s"
      using l p2_pos [of s] by simp
    finally have "p2 52 * p2 (bitlen b) \<le> \<bar>real_of_int a\<bar> * p2 s" .
    moreover have "p2 52 * real_of_int b \<le> p2 52 * p2 (bitlen b)"
      using u p2_pos [of 52] by simp
    ultimately have "p2 52 * real_of_int b \<le> \<bar>real_of_int a\<bar> * p2 s" by linarith
    then have "p2 52 \<le> \<bar>real_of_int a\<bar> / real_of_int b * p2 s"
      using bp by (simp add: field_simps)
    moreover have "p2 52 = 2 ^ 52" by (simp add: p2_nat)
    ultimately show ?thesis using False by (simp add: t_def)
  qed
  from rr key show ?thesis by blast
qed

lemma round_ratio_error:
  assumes "a \<noteq> 0" and "0 < b"
  shows "\<bar>dval (round_ratio a b) - real_of_int a / real_of_int b\<bar>
           \<le> \<bar>real_of_int a\<bar> / real_of_int b / 2 ^ 53"
proof -
  from round_ratio_scaled [OF assms] obtain t
    where rr: "round_ratio a b = (rne_div (a * 2 ^ nat t) (b * 2 ^ nat (- t)), - t)"
      and key: "2 ^ 52 \<le> \<bar>real_of_int a\<bar> / real_of_int b * p2 t"
    by blast
  let ?A = "a * 2 ^ nat t" and ?B = "b * 2 ^ nat (- t)"
  let ?m = "rne_div ?A ?B"
  have bp: "0 < real_of_int b" using assms by simp
  have B: "0 < ?B" using assms by simp
  have sc: "real_of_int ?A / real_of_int ?B = real_of_int a / real_of_int b * p2 t"
    using p2_scale [of t] by (simp add: field_simps)
  from rne_div_error [OF B, of ?A] sc
  have e: "\<bar>real_of_int ?m - real_of_int a / real_of_int b * p2 t\<bar> \<le> 1 / 2"
    by simp
  have inv: "p2 t * p2 (- t) = 1"
    by (simp add: p2_add [symmetric]) (simp add: p2_def)
  have dv: "dval (round_ratio a b) = real_of_int ?m * p2 (- t)"
    by (simp add: rr dval_def p2_def)
  have "dval (round_ratio a b) - real_of_int a / real_of_int b
        = (real_of_int ?m - real_of_int a / real_of_int b * p2 t) * p2 (- t)"
    using inv by (simp add: dv algebra_simps)
  then have "\<bar>dval (round_ratio a b) - real_of_int a / real_of_int b\<bar>
        = \<bar>real_of_int ?m - real_of_int a / real_of_int b * p2 t\<bar> * p2 (- t)"
    using p2_pos [of "- t"] by (simp add: abs_mult)
  also have "\<dots> \<le> 1 / 2 * p2 (- t)"
    using e p2_pos [of "- t"] by (simp add: mult_right_mono)
  also have "\<dots> \<le> \<bar>real_of_int a\<bar> / real_of_int b / 2 ^ 53"
  proof -
    define r where "r = \<bar>real_of_int a\<bar> / real_of_int b"
    from key have k: "2 ^ 52 \<le> r * p2 t" by (simp add: r_def)
    have "0 \<le> p2 (- t)" using p2_pos [of "- t"] by simp
    with k have "2 ^ 52 * p2 (- t) \<le> r * p2 t * p2 (- t)"
      by (rule mult_right_mono)
    also have "r * p2 t * p2 (- t) = r"
      using inv by (simp add: mult.assoc)
    finally have "2 ^ 52 * p2 (- t) \<le> r" .
    then have "1 / 2 * p2 (- t) \<le> r / 2 ^ 53" by simp
    then show ?thesis by (simp only: r_def)
  qed
  finally show ?thesis .
qed

lemma round_ratio_nonneg: "0 \<le> a \<Longrightarrow> 0 < b \<Longrightarrow> 0 \<le> fst (round_ratio a b)"
  by (simp add: round_ratio_def Let_def rne_div_nonneg)


lemma round_ratio_bounds:
  assumes "0 < a" and "0 < b"
  shows "real_of_int a / real_of_int b * (1 - 1 / 2 ^ 53) \<le> dval (round_ratio a b)"
    and "dval (round_ratio a b) \<le> real_of_int a / real_of_int b * (1 + 1 / 2 ^ 53)"
proof -
  from assms have "a \<noteq> 0" by simp
  from round_ratio_error [OF this assms(2)] assms
  have "\<bar>dval (round_ratio a b) - real_of_int a / real_of_int b\<bar>
           \<le> real_of_int a / real_of_int b / 2 ^ 53"
    by simp
  then show "real_of_int a / real_of_int b * (1 - 1 / 2 ^ 53) \<le> dval (round_ratio a b)"
    and "dval (round_ratio a b) \<le> real_of_int a / real_of_int b * (1 + 1 / 2 ^ 53)"
    by (simp_all add: algebra_simps abs_le_iff)
qed

lemma round_ratio_pos:
  assumes "0 < a" and "0 < b"
  shows "0 < fst (round_ratio a b)"
proof -
  have "0 < real_of_int a / real_of_int b * (1 - 1 / 2 ^ 53)"
    using assms by simp
  with round_ratio_bounds (1) [OF assms] have "0 < dval (round_ratio a b)" by linarith
  then have "0 < real_of_int (fst (round_ratio a b))"
    by (simp add: dval_def zero_less_mult_iff)
  then show ?thesis by simp
qed

lemma fmul_exact:
  "real_of_int (fst x * fst y * 2 ^ nat (snd x + snd y))
     / real_of_int (2 ^ nat (- (snd x + snd y))) = dval x * dval y"
proof -
  have "real_of_int (fst x * fst y * 2 ^ nat (snd x + snd y))
     / real_of_int (2 ^ nat (- (snd x + snd y)))
     = real_of_int (fst x) * real_of_int (fst y)
       * (real_of_int (2 ^ nat (snd x + snd y)) / real_of_int (2 ^ nat (- (snd x + snd y))))"
    by simp
  also have "\<dots> = real_of_int (fst x) * real_of_int (fst y) * p2 (snd x + snd y)"
    by (simp only: p2_scale)
  also have "\<dots> = dval x * dval y"
    by (simp add: dval_def p2_add) (simp add: p2_def)
  finally show ?thesis .
qed

lemma fmul_bounds:
  assumes "0 < fst x" and "0 < fst y"
  shows "dval x * dval y * (1 - 1 / 2 ^ 53) \<le> dval (fmul x y)"
    and "dval (fmul x y) \<le> dval x * dval y * (1 + 1 / 2 ^ 53)"
    and "0 \<le> fst (fmul x y)"
proof -
  let ?A = "fst x * fst y * 2 ^ nat (snd x + snd y)"
  let ?B = "(2::int) ^ nat (- (snd x + snd y))"
  have A: "0 < ?A" using assms by simp
  have B: "0 < ?B" by simp
  have f: "fmul x y = round_ratio ?A ?B" by (simp add: fmul_def Let_def)
  from round_ratio_bounds [OF A B] fmul_exact [of x y]
  show "dval x * dval y * (1 - 1 / 2 ^ 53) \<le> dval (fmul x y)"
    and "dval (fmul x y) \<le> dval x * dval y * (1 + 1 / 2 ^ 53)"
    by (simp_all only: f)
  from A have "0 \<le> ?A" by simp
  from round_ratio_nonneg [OF this B] show "0 \<le> fst (fmul x y)" by (simp only: f)
qed

lemma int_of_float_floor:
  assumes "0 \<le> fst x"
  shows "int_of_float x = \<lfloor>dval x\<rfloor>"
proof (cases "0 \<le> snd x")
  case True
  then have "dval x = real_of_int (fst x * 2 ^ nat (snd x))"
    using p2_nat [of "snd x"] by (simp add: dval_def p2_def)
  then have "\<lfloor>dval x\<rfloor> = fst x * 2 ^ nat (snd x)"
    by (simp only: floor_of_int)
  with True show ?thesis by (simp add: int_of_float_def Let_def)
next
  case False
  then have "dval x = real_of_int (fst x) / real_of_int (2 ^ nat (- snd x))"
    using p2_neg [of "snd x"] by (simp add: dval_def p2_def)
  then have "\<lfloor>dval x\<rfloor> = fst x div 2 ^ nat (- snd x)"
    by (simp only: floor_divide_of_int_eq)
  with False assms show ?thesis by (simp add: int_of_float_def Let_def)
qed


lemma cube_bounds:
  fixes u :: real
  assumes "0 \<le> u" and "u \<le> 1 / 4"
  shows "(1 + u) * (1 + u) * (1 + u) \<le> 1 + 4 * u"
    and "1 - 4 * u \<le> (1 - u) * (1 - u) * (1 - u)"
proof -
  have s: "u * u \<le> 1 / 4 * u" using assms by (intro mult_right_mono) simp_all
  have s0: "0 \<le> u * u" using assms by simp
  have "u * (u * u) \<le> u * (1 / 4 * u)" using s assms by (intro mult_left_mono) simp_all
  then have c: "u * u * u \<le> 1 / 4 * (u * u)" by (simp add: mult_ac)
  have c0: "0 \<le> u * u * u" using assms by simp
  have e1: "(1 + u) * (1 + u) * (1 + u) = 1 + 3 * u + 3 * (u * u) + u * u * u"
    by (simp add: algebra_simps)
  have e2: "(1 - u) * (1 - u) * (1 - u) = 1 - 3 * u + 3 * (u * u) - u * u * u"
    by (simp add: algebra_simps)
  from s s0 c c0 show "(1 + u) * (1 + u) * (1 + u) \<le> 1 + 4 * u"
    unfolding e1 by linarith
  from s s0 c c0 show "1 - 4 * u \<le> (1 - u) * (1 - u) * (1 - u)"
    unfolding e2 by linarith
qed

lemma product_close:
  assumes M: "0 < M" and w: "0 < w" and h: "0 < h" and small: "h * M < 2 ^ 51"
  defines "X \<equiv> real_of_int (h * M) / real_of_int w"
  defines "P \<equiv> dval (fmul (float_of_int h) (round_ratio M w))"
  shows "X - 1 / real_of_int w < P" and "P < X + 1 / real_of_int w"
    and "0 \<le> fst (fmul (float_of_int h) (round_ratio M w))"
proof -
  define u :: real where "u = 1 / 2 ^ 53"
  define eta where "eta = dval (float_of_int h)"
  define rho where "rho = dval (round_ratio M w)"
  define r where "r = real_of_int M / real_of_int w"
  have u: "0 \<le> u" "u \<le> 1 / 4" "0 \<le> 1 - u" "0 \<le> 1 + u" by (simp_all add: u_def)
  have hr: "0 < real_of_int h" using h by simp
  have rp: "0 < r" using M w by (simp add: r_def)
  have Xr: "X = real_of_int h * r" by (simp add: X_def r_def)
  have one: "(0::int) < 1" by simp
  have eta_b: "real_of_int h * (1 - u) \<le> eta" "eta \<le> real_of_int h * (1 + u)"
    using round_ratio_bounds [OF h one] by (simp_all add: eta_def float_of_int_def u_def)
  have rho_b: "r * (1 - u) \<le> rho" "rho \<le> r * (1 + u)"
    using round_ratio_bounds [OF M w] by (simp_all add: rho_def r_def u_def)
  have fx: "0 < fst (float_of_int h)"
    using round_ratio_pos [OF h one] by (simp add: float_of_int_def)
  have fy: "0 < fst (round_ratio M w)"
    using round_ratio_pos [OF M w] .
  have P_b: "eta * rho * (1 - u) \<le> P" "P \<le> eta * rho * (1 + u)"
    using fmul_bounds (1,2) [OF fx fy] by (simp_all add: P_def eta_def rho_def u_def)
  show "0 \<le> fst (fmul (float_of_int h) (round_ratio M w))"
    using fmul_bounds (3) [OF fx fy] .
  have "0 \<le> real_of_int h * (1 - u)" using hr u by simp
  with eta_b(1) have eta0: "0 \<le> eta" by linarith
  have "0 \<le> r * (1 - u)" using rp u by simp
  with rho_b(1) have rho0: "0 \<le> rho" by linarith
  have up1: "eta * rho \<le> (real_of_int h * (1 + u)) * (r * (1 + u))"
    using eta_b(2) rho_b(2) eta0 rho0 hr rp u by (intro mult_mono) simp_all
  have lo1: "(real_of_int h * (1 - u)) * (r * (1 - u)) \<le> eta * rho"
    using eta_b(1) rho_b(1) eta0 hr rp u by (intro mult_mono) simp_all
  have "eta * rho * (1 + u) \<le> (real_of_int h * (1 + u)) * (r * (1 + u)) * (1 + u)"
    using up1 u(4) by (rule mult_right_mono)
  with P_b(2) have "P \<le> (real_of_int h * (1 + u)) * (r * (1 + u)) * (1 + u)"
    by linarith
  also have "\<dots> = X * ((1 + u) * (1 + u) * (1 + u))"
    by (simp add: Xr mult_ac)
  also have "\<dots> \<le> X * (1 + 4 * u)"
    using cube_bounds (1) [OF u(1,2)] hr rp by (intro mult_left_mono) (simp_all add: Xr)
  finally have up: "P \<le> X + X * (4 * u)" by (simp add: algebra_simps)
  have "X * (1 - 4 * u) \<le> X * ((1 - u) * (1 - u) * (1 - u))"
    using cube_bounds (2) [OF u(1,2)] hr rp by (intro mult_left_mono) (simp_all add: Xr)
  also have "\<dots> = (real_of_int h * (1 - u)) * (r * (1 - u)) * (1 - u)"
    by (simp add: Xr mult_ac)
  also have "\<dots> \<le> eta * rho * (1 - u)"
    using lo1 u(3) by (rule mult_right_mono)
  also have "\<dots> \<le> P"
    using P_b(1) .
  finally have lo: "X - X * (4 * u) \<le> P" by (simp add: algebra_simps)
  have "real_of_int (h * M) < real_of_int (2 ^ 51)"
    using small by (simp only: of_int_less_iff)
  then have "real_of_int (h * M) * (4 * u) < 1" by (simp add: u_def)
  then have "real_of_int (h * M) * (4 * u) / real_of_int w < 1 / real_of_int w"
    using w by (simp add: divide_strict_right_mono)
  then have x4: "X * (4 * u) < 1 / real_of_int w" by (simp add: X_def)
  from up x4 show "P < X + 1 / real_of_int w" by linarith
  from lo x4 show "X - 1 / real_of_int w < P" by linarith
qed


lemma new_height_zero:
  "int_of_float (fmul (float_of_int 0) y) = 0" "int_of_float (fmul x (round_ratio 0 w)) = 0"
  by (simp_all add: int_of_float_def fmul_def float_of_int_def round_ratio_def Let_def)

lemma new_height_close:
  assumes M: "0 < M" and w: "M < w" and h: "0 < h" and small: "h * M < 2 ^ 51"
  defines "nh \<equiv> int_of_float (fmul (float_of_int h) (round_ratio M w))"
  shows "nh = h * M div w \<or> (w dvd h * M \<and> nh = h * M div w - 1)"
proof -
  let ?P = "dval (fmul (float_of_int h) (round_ratio M w))"
  let ?K = "h * M div w" and ?j = "h * M mod w"
  from M w have wp: "0 < w" by simp
  then have wr: "0 < real_of_int w" by simp
  from product_close [OF M wp h small]
  have lo: "real_of_int (h * M) / real_of_int w - 1 / real_of_int w < ?P"
    and up: "?P < real_of_int (h * M) / real_of_int w + 1 / real_of_int w"
    and nn: "0 \<le> fst (fmul (float_of_int h) (round_ratio M w))"
    by simp_all
  have fl: "nh = \<lfloor>?P\<rfloor>"
    unfolding nh_def by (rule int_of_float_floor [OF nn])
  have j: "0 \<le> ?j" "?j < w" using wp by simp_all
  have "h * M = w * ?K + ?j" by simp
  then have "real_of_int (h * M) = real_of_int w * real_of_int ?K + real_of_int ?j"
    by (metis of_int_add of_int_mult)
  then have X: "real_of_int (h * M) / real_of_int w
      = real_of_int ?K + real_of_int ?j / real_of_int w"
    using wr by (simp add: field_simps)
  from j have "?j + 1 \<le> w" by simp
  then have "real_of_int (?j + 1) \<le> real_of_int w" by (simp only: of_int_le_iff)
  then have j1: "(real_of_int ?j + 1) / real_of_int w \<le> 1"
    using wr by simp
  have "?P < real_of_int ?K + (real_of_int ?j + 1) / real_of_int w"
    using up X by (simp add: add_divide_distrib)
  with j1 have "?P < real_of_int (?K + 1)" by simp
  then have "\<lfloor>?P\<rfloor> < ?K + 1" by (simp only: floor_less_iff)
  then have upper: "nh \<le> ?K" using fl by simp
  have lower: "?K - 1 \<le> nh"
  proof -
    have "0 \<le> real_of_int ?j / real_of_int w" using j wr by simp
    moreover have "1 / real_of_int w \<le> 1" using wp by simp
    ultimately have "real_of_int (?K - 1) \<le> ?P" using lo X by simp
    then have "?K - 1 \<le> \<lfloor>?P\<rfloor>" by (simp only: le_floor_iff)
    with fl show ?thesis by simp
  qed
  show ?thesis
  proof (cases "?j = 0")
    case True
    then have "w dvd h * M" by (simp add: dvd_eq_mod_eq_0)
    with upper lower show ?thesis by auto
  next
    case False
    with j have "1 \<le> ?j" by simp
    then have "0 \<le> (real_of_int ?j - 1) / real_of_int w" using wr by simp
    moreover have "real_of_int ?K + (real_of_int ?j - 1) / real_of_int w < ?P"
      using lo X by (simp add: diff_divide_distrib)
    ultimately have "real_of_int ?K \<le> ?P" by linarith
    then have "?K \<le> \<lfloor>?P\<rfloor>" by (simp only: le_floor_iff)
    with fl upper show ?thesis by simp
  qed
qed

text \<open>
  C8, as amended. An image at most as wide as the maximum keeps its dimensions. For an
  image wider than the maximum, with a nonnegative maximum and \<open>h * M < 2 ^ 51\<close>,
  the new width is exactly \<open>M\<close> and the new height is \<open>floor (h * M / w)\<close>, or one
  less than that when \<open>w\<close> divides \<open>h * M\<close>: the height is the truncated
  double-precision product \<open>h * (M / w)\<close>, which can fall just below an exact integer
  quotient.
\<close>

theorem new_size_dimensions:
  "(w \<le> M \<longrightarrow> new_size M (w, h) = Inr (w, h))
   \<and> (0 \<le> M \<and> M < w \<and> 0 \<le> h \<and> h * M < 2 ^ 51 \<longrightarrow>
        (\<exists>nh. new_size M (w, h) = Inr (M, nh)
           \<and> (nh = h * M div w \<or> (w dvd h * M \<and> nh = h * M div w - 1))))"
proof (intro conjI impI)
  assume "w \<le> M"
  then show "new_size M (w, h) = Inr (w, h)"
    by (simp add: new_size_def)
next
  assume a: "0 \<le> M \<and> M < w \<and> 0 \<le> h \<and> h * M < 2 ^ 51"
  then have wp: "0 < w" by simp
  with a have ns: "new_size M (w, h) =
      Inr (M, int_of_float (fmul (float_of_int h) (round_ratio M w)))"
    by (simp add: new_size_def truediv_def)
  show "\<exists>nh. new_size M (w, h) = Inr (M, nh)
           \<and> (nh = h * M div w \<or> (w dvd h * M \<and> nh = h * M div w - 1))"
  proof (cases "M = 0 \<or> h = 0")
    case True
    then have "int_of_float (fmul (float_of_int h) (round_ratio M w)) = 0"
      by (auto simp add: new_height_zero)
    moreover from True have "h * M div w = 0" by auto
    ultimately show ?thesis using ns by simp
  next
    case False
    with a have "0 < M" "M < w" "0 < h" "h * M < 2 ^ 51" by simp_all
    from new_height_close [OF this] ns show ?thesis by simp
  qed
qed

theorem new_size_dimensions_witness:
  "new_size 1920 (1600, 1200) = Inr (1600, 1200)
   \<and> new_size 1920 (4000, 3000) = Inr (1920, 1440)
   \<and> (3000 * 1920 div 4000 = (1440::int))"
proof -
  have a: "(0::int) \<le> 1920 \<and> (1920::int) < 4000 \<and> (0::int) \<le> 3000
      \<and> (3000::int) * 1920 < 2 ^ 51"
    by simp
  from new_size_dimensions [of 1600 1920 1200] new_size_dimensions [of 4000 1920 3000] a
    new_size_plain
  show ?thesis by simp
qed

text \<open>
  C8 as stated fails: for a square image of 2148 by 2148 pixels and the default maximum
  width 1920, \<open>floor (h * M / w)\<close> is 1920 and the computed height is 1919.
\<close>

theorem new_size_counterexample:
  "(1920::int) < 2148
   \<and> (2148 * 1920 div 2148 = (1920::int))
   \<and> new_size 1920 (2148, 2148) = Inr (1920, 1919)"
proof -
  have "new_size 1920 (2148, 2148) = Inr (1920, 1919)"
    by code_simp
  then show ?thesis by simp
qed

end
